theory Spec2Isabelle
  imports Complex_Main "HOL-Library.Sublist"
begin

section \<open>Python values\<close>

text \<open>
  The workflow keeps the sandbox outcome and the critic's judgment as Python dicts whose
  values are whatever \<^verbatim>\<open>json.loads\<close> or the executor put there. A Python float is
  a double: a finite value is read as the real number it denotes, and the three special
  values JSON decoding can yield are kept apart.
\<close>

datatype pyfloat = Finite real | PosInf | NegInf | NaN

datatype pyval =
    PNone
  | PBool bool
  | PInt int
  | PFloat pyfloat
  | PStr string
  | PList "pyval list"
  | PDict "(string \<times> pyval) list"

type_synonym pydict = "(string \<times> pyval) list"

datatype pyexn =
    TypeError string
  | KeyError string
  | JSONDecodeError string
  | RecursionError string
  | OtherException string

text \<open>\<^verbatim>\<open>d.get(k, default)\<close> on a dict.\<close>

definition dict_get :: "pydict \<Rightarrow> string \<Rightarrow> pyval \<Rightarrow> pyval" where
  "dict_get d k dflt = (case map_of d k of None \<Rightarrow> dflt | Some v \<Rightarrow> v)"

text \<open>
  \<^verbatim>\<open>x >= 8.0\<close>: defined on bool, int and float (a bool counts as 0 or 1, a NaN
  compares false), a \<^verbatim>\<open>TypeError\<close> on None, str, list and dict.
\<close>

fun ge_float :: "pyval \<Rightarrow> real \<Rightarrow> pyexn + bool" where
  "ge_float (PBool b) r = Inr ((if b then 1 else 0) \<ge> r)"
| "ge_float (PInt i) r = Inr (real_of_int i \<ge> r)"
| "ge_float (PFloat (Finite x)) r = Inr (x \<ge> r)"
| "ge_float (PFloat PosInf) r = Inr True"
| "ge_float (PFloat NegInf) r = Inr False"
| "ge_float (PFloat NaN) r = Inr False"
| "ge_float PNone r = Inl (TypeError ''>= not supported between NoneType and float'')"
| "ge_float (PStr s) r = Inl (TypeError ''>= not supported between str and float'')"
| "ge_float (PList l) r = Inl (TypeError ''>= not supported between list and float'')"
| "ge_float (PDict d) r = Inl (TypeError ''>= not supported between dict and float'')"

text \<open>A value that \<^verbatim>\<open>>=\<close> accepts on its left of a float.\<close>

fun is_number :: "pyval \<Rightarrow> bool" where
  "is_number (PBool b) = True"
| "is_number (PInt i) = True"
| "is_number (PFloat f) = True"
| "is_number v = False"

section \<open>The workflow state (main.py, VisualizationState)\<close>

record VisualizationState =
  user_request :: string
  dataset_url :: string
  iteration :: int
  max_iterations :: int
  generated_code :: string
  execution_result :: pydict
  critic_evaluation :: pydict
  final_viz_path :: string
  status :: string
  error_message :: string

section \<open>The decision node (main.py, should_continue)\<close>

datatype route = ToCoder | ToEnd

text \<open>
  The function mutates the state it is handed and returns the name of the next node; the
  model returns both. The comparison of the score is evaluated before the execution
  status is looked at, so a score that is not a number raises before anything is decided.
\<close>

definition should_continue :: "VisualizationState \<Rightarrow> pyexn + (route \<times> VisualizationState)" where
  "should_continue state =
     (if iteration state \<ge> max_iterations state
      then Inr (ToEnd, state\<lparr>status := ''completed''\<rparr>)
      else
        let avg_score = dict_get (critic_evaluation state) ''average_score'' (PInt 0);
            exec_success = (dict_get (execution_result state) ''status'' PNone = PStr ''success'')
        in case ge_float avg_score 8 of
             Inl e \<Rightarrow> Inl e
           | Inr high_score \<Rightarrow>
               if high_score \<and> exec_success
               then Inr (ToEnd, state\<lparr>status := ''completed'', final_viz_path := ''visualization.png''\<rparr>)
               else Inr (ToCoder, state))"

section \<open>The code extractor (main.py, extract_code_block)\<close>

text \<open>
  Both patterns have the shape \<^verbatim>\<open>OPEN(.*?)CLOSE\<close> with literal \<^verbatim>\<open>OPEN\<close> and
  \<^verbatim>\<open>CLOSE\<close>, compiled with \<^verbatim>\<open>re.DOTALL\<close>. The leftmost match starts at the first
  occurrence of \<^verbatim>\<open>OPEN\<close>; the lazy group then stops at the first occurrence of
  \<^verbatim>\<open>CLOSE\<close> behind it. When no \<^verbatim>\<open>CLOSE\<close> follows the first \<^verbatim>\<open>OPEN\<close>, none
  follows a later one either, and \<^verbatim>\<open>re.findall\<close> returns the empty list.
\<close>

fun text_after :: "string \<Rightarrow> string \<Rightarrow> string option" where
  "text_after lit [] = (if lit = [] then Some [] else None)"
| "text_after lit (c # cs) =
     (if prefix lit (c # cs) then Some (drop (length lit) (c # cs)) else text_after lit cs)"

fun text_before :: "string \<Rightarrow> string \<Rightarrow> string option" where
  "text_before lit [] = (if lit = [] then Some [] else None)"
| "text_before lit (c # cs) =
     (if prefix lit (c # cs) then Some [] else map_option ((#) c) (text_before lit cs))"

text \<open>\<^verbatim>\<open>re.findall(OPEN(.*?)CLOSE, text, re.DOTALL)\<close>: its first element, if it has one.\<close>

definition first_group :: "string \<Rightarrow> string \<Rightarrow> string \<Rightarrow> string option" where
  "first_group opening closing text =
     (case text_after opening text of
        None \<Rightarrow> None
      | Some rest \<Rightarrow> text_before closing rest)"

definition python_fence :: string where
  "python_fence = ''```python\<newline>''"

definition plain_fence :: string where
  "plain_fence = ''```\<newline>''"

definition closing_fence :: string where
  "closing_fence = ''\<newline>```''"

definition extract_code_block :: "string \<Rightarrow> string" where
  "extract_code_block text =
     (case first_group python_fence closing_fence text of
        Some m \<Rightarrow> m
      | None \<Rightarrow>
          (case first_group plain_fence closing_fence text of
             Some m \<Rightarrow> m
           | None \<Rightarrow> text))"

text \<open>
  The reading of the specification's words, for comparison: a fenced block is an opening
  fence line (three backticks and a tag, possibly empty, up to the end of the line), the
  contents, and a closing fence at the start of a later line.
\<close>

definition fenced_block :: "string \<Rightarrow> string \<Rightarrow> string \<Rightarrow> bool" where
  "fenced_block tag contents text \<longleftrightarrow>
     CHR ''\<newline>'' \<notin> set tag \<and>
     (\<exists>before behind. text = before @ ''```'' @ tag @ ''\<newline>'' @ contents @ closing_fence @ behind)"

section \<open>The sandboxed executor (main.py, execute_code_safely)\<close>

text \<open>
  The file system is a map from paths to contents. What the operating system answers is
  an argument: whether the scratch file could be opened and written, how
  \<^verbatim>\<open>subprocess.run\<close> ended, what the child did to the file system while it ran, and
  whether \<^verbatim>\<open>os.remove\<close> raised. The path of the scratch file comes from the clock.

  \<^verbatim>\<open>subprocess.run\<close> ends in one of four ways. It raises before or while starting the
  child (\<open>RunRaises\<close>). It raises \<^verbatim>\<open>TimeoutExpired\<close>. The child exits with a return
  code but its output is not valid UTF-8, so that decoding it (\<^verbatim>\<open>text=True\<close>) raises
  \<^verbatim>\<open>UnicodeDecodeError\<close> (\<open>OutputUndecodable\<close>). Or it returns the completed process
  with its return code and decoded output (\<open>Completed\<close>).
\<close>

type_synonym fs = "string \<Rightarrow> string option"

datatype write_outcome =
    OpenRaises string
  | WriteRaises string
  | Written

datatype run_outcome =
    RunRaises string
  | TimeoutExpired
  | OutputUndecodable int string
  | Completed int string string

datatype remove_outcome =
    RemoveRaises string
  | Removed

text \<open>
  The processes: \<open>child_pid\<close> is the process \<^verbatim>\<open>subprocess.run\<close> starts, and
  \<open>descendants\<close> are the processes that one has started and that have not ended by
  themselves when \<^verbatim>\<open>subprocess.run\<close> hands control back.
\<close>

record exec_env =
  temp_file :: string
  write_outcome :: write_outcome
  run_outcome :: run_outcome
  child_effect :: "fs \<Rightarrow> fs"
  remove_outcome :: remove_outcome
  child_pid :: nat
  descendants :: "nat set"

definition exec_result :: "string \<Rightarrow> int \<Rightarrow> string \<Rightarrow> string \<Rightarrow> pydict" where
  "exec_result st rc out err =
     [(''status'', PStr st), (''returncode'', PInt rc), (''stdout'', PStr out),
      (''stderr'', PStr err), (''files_created'', PList [])]"

definition execute_code_safely :: "exec_env \<Rightarrow> fs \<Rightarrow> string \<Rightarrow> int \<Rightarrow> pydict \<times> fs" where
  "execute_code_safely env files code timeout =
     (case write_outcome env of
        OpenRaises msg \<Rightarrow> (exec_result ''error'' (- 1) [] msg, files)
      | WriteRaises msg \<Rightarrow> (exec_result ''error'' (- 1) [] msg, files(temp_file env \<mapsto> []))
      | Written \<Rightarrow>
          let files1 = files(temp_file env \<mapsto> code) in
          (case run_outcome env of
             RunRaises msg \<Rightarrow> (exec_result ''error'' (- 1) [] msg, child_effect env files1)
           | TimeoutExpired \<Rightarrow>
               (exec_result ''timeout'' (- 1) [] ''Code execution exceeded 30-second timeout'',
                child_effect env files1)
           | OutputUndecodable returncode msg \<Rightarrow>
               (exec_result ''error'' (- 1) [] msg, child_effect env files1)
           | Completed returncode out err \<Rightarrow>
               let files2 = child_effect env files1;
                   res = exec_result (if returncode = 0 then ''success'' else ''error'')
                           returncode out err
               in if files2 (temp_file env) \<noteq> None
                  then (case remove_outcome env of
                          RemoveRaises msg \<Rightarrow> (exec_result ''error'' (- 1) [] msg, files2)
                        | Removed \<Rightarrow> (res, files2(temp_file env := None)))
                  else (res, files2)))"

text \<open>
  The processes running when the call returns, given those running before it. The source
  starts the child with \<^verbatim>\<open>subprocess.run\<close> in the process group of the caller and has
  no code that ends a process: its \<^verbatim>\<open>TimeoutExpired\<close> handler only builds the result.
  \<^verbatim>\<open>subprocess.run\<close> itself, when the timeout expires, kills the child it started and
  waits for it; it knows nothing of the processes that child has started. In every case
  in which a child ran, the child has ended when the call returns and its descendants
  have not.
\<close>

definition processes_after :: "exec_env \<Rightarrow> nat set \<Rightarrow> nat set" where
  "processes_after env running =
     (case write_outcome env of
        OpenRaises msg \<Rightarrow> running
      | WriteRaises msg \<Rightarrow> running
      | Written \<Rightarrow>
          (case run_outcome env of
             RunRaises msg \<Rightarrow> running
           | TimeoutExpired \<Rightarrow> (running \<union> descendants env) - {child_pid env}
           | OutputUndecodable returncode msg \<Rightarrow> (running \<union> descendants env) - {child_pid env}
           | Completed returncode out err \<Rightarrow> (running \<union> descendants env) - {child_pid env}))"

section \<open>The evaluation parser (main.py, parse_json_evaluation)\<close>

text \<open>
  \<^verbatim>\<open>re.search(r'\{.*\}', text, re.DOTALL)\<close>: the match starts at the first opening brace
  and, the star being greedy, ends at the last closing brace behind it.
\<close>

definition search_braces :: "string \<Rightarrow> string option" where
  "search_braces text =
     (case dropWhile (\<lambda>c. c \<noteq> CHR ''{'') text of
        [] \<Rightarrow> None
      | b # rest \<Rightarrow>
          let inner = rev (dropWhile (\<lambda>c. c \<noteq> CHR ''}'') (rev rest))
          in if inner = [] then None else Some (b # inner))"

definition fallback_evaluation :: pydict where
  "fallback_evaluation =
     [(''scores'', PDict [(''bugs'', PInt 5), (''transformation'', PInt 5), (''compliance'', PInt 5),
                          (''type'', PInt 5), (''encoding'', PInt 5), (''aesthetics'', PInt 5)]),
      (''average_score'', PFloat (Finite 5)),
      (''feedback'', PStr ''Unable to parse evaluation''),
      (''approve'', PBool False)]"

text \<open>
  \<^verbatim>\<open>json.loads\<close> is the library's: it is an argument, answering a dict (the document
  starts with a brace) or an exception. Only \<^verbatim>\<open>json.JSONDecodeError\<close> is caught.
\<close>

definition parse_json_evaluation :: "(string \<Rightarrow> pyexn + pydict) \<Rightarrow> string \<Rightarrow> pyexn + pydict" where
  "parse_json_evaluation loads text =
     (case search_braces text of
        None \<Rightarrow> Inr fallback_evaluation
      | Some json_str \<Rightarrow>
          (case loads json_str of
             Inr v \<Rightarrow> Inr v
           | Inl (JSONDecodeError msg) \<Rightarrow> Inr fallback_evaluation
           | Inl e \<Rightarrow> Inl e))"


section \<open>The agent nodes (main.py, coder_node, executor_node, critic_node)\<close>

text \<open>
  A node's call of the language model is the environment's: constructing the client
  raises (outside the node's \<^verbatim>\<open>try\<close>), or \<^verbatim>\<open>invoke\<close> raises (inside it), or a text
  comes back. The prompt a node builds only feeds that call and is left out.
\<close>

datatype llm_outcome =
    InitRaises string
  | InvokeRaises string
  | Responds string

definition coder_node :: "llm_outcome \<Rightarrow> VisualizationState \<Rightarrow> pyexn + VisualizationState" where
  "coder_node llm state =
     (case llm of
        InitRaises msg \<Rightarrow> Inl (OtherException msg)
      | InvokeRaises msg \<Rightarrow>
          Inr (state\<lparr>error_message := ''Coder Agent Error: '' @ msg, status := ''failed''\<rparr>)
      | Responds raw_code \<Rightarrow>
          Inr (state\<lparr>generated_code := extract_code_block raw_code,
                     iteration := iteration state + 1,
                     status := ''in_progress''\<rparr>))"

text \<open>The text of a value that is a str (every \<^verbatim>\<open>stderr\<close> the executor returns is one).\<close>

fun str_of :: "pyval \<Rightarrow> string" where
  "str_of (PStr s) = s"
| "str_of v = []"

definition executor_node :: "exec_env \<Rightarrow> fs \<Rightarrow> VisualizationState \<Rightarrow> VisualizationState \<times> fs" where
  "executor_node env files state =
     (let (res, files') = execute_code_safely env files (generated_code state) 30;
          state1 = state\<lparr>execution_result := res\<rparr>
      in (if dict_get res ''status'' PNone \<noteq> PStr ''success''
          then state1\<lparr>error_message := str_of (dict_get res ''stderr'' (PStr ''Unknown execution error''))\<rparr>
          else state1,
          files'))"

fun exn_str :: "pyexn \<Rightarrow> string" where
  "exn_str (TypeError m) = m"
| "exn_str (KeyError m) = m"
| "exn_str (JSONDecodeError m) = m"
| "exn_str (RecursionError m) = m"
| "exn_str (OtherException m) = m"

definition degraded_evaluation :: "string \<Rightarrow> pydict" where
  "degraded_evaluation msg =
     [(''scores'', PDict [(''bugs'', PInt 3), (''transformation'', PInt 3), (''compliance'', PInt 3),
                          (''type'', PInt 3), (''encoding'', PInt 3), (''aesthetics'', PInt 3)]),
      (''average_score'', PFloat (Finite 3)),
      (''feedback'', PStr (''Critic evaluation failed: '' @ msg)),
      (''approve'', PBool False)]"

definition critic_failed :: "string \<Rightarrow> VisualizationState \<Rightarrow> VisualizationState" where
  "critic_failed msg state =
     state\<lparr>critic_evaluation := degraded_evaluation msg, error_message := ''Critic Error: '' @ msg\<rparr>"

definition critic_node ::
  "(string \<Rightarrow> pyexn + pydict) \<Rightarrow> llm_outcome \<Rightarrow> VisualizationState \<Rightarrow> pyexn + VisualizationState" where
  "critic_node loads llm state =
     (case llm of
        InitRaises msg \<Rightarrow> Inl (OtherException msg)
      | InvokeRaises msg \<Rightarrow> Inr (critic_failed msg state)
      | Responds content \<Rightarrow>
          (case parse_json_evaluation loads content of
             Inr evaluation \<Rightarrow> Inr (state\<lparr>critic_evaluation := evaluation\<rparr>)
           | Inl e \<Rightarrow> Inr (critic_failed (exn_str e) state)))"

section \<open>The workflow graph (main.py, build_workflow and run_visualization_workflow)\<close>

text \<open>
  The graph has the nodes coder, executor and critic, the entry point coder, the edges
  coder to executor and executor to critic, and a conditional edge behind critic that
  \<^verbatim>\<open>should_continue\<close> decides. The decision is a node of its own here, as in the
  specification's four-node cycle; \<open>Crashed\<close> is a run that an exception has left.
\<close>

datatype node = Coder | Executor | Critic | Decide | End | Crashed pyexn

fun edge :: "node \<Rightarrow> node" where
  "edge Coder = Executor"
| "edge Executor = Critic"
| "edge Critic = Decide"
| "edge n = n"

fun conditional_edge :: "route \<Rightarrow> node" where
  "conditional_edge ToCoder = Coder"
| "conditional_edge ToEnd = End"

record config =
  node :: node
  wstate :: VisualizationState
  files :: fs

text \<open>What the environment answers to one node: only the part that node asks for is read.\<close>

record world_event =
  llm :: llm_outcome
  sandbox :: exec_env

definition step :: "(string \<Rightarrow> pyexn + pydict) \<Rightarrow> world_event \<Rightarrow> config \<Rightarrow> config" where
  "step loads ev c =
     (case node c of
        Coder \<Rightarrow>
          (case coder_node (llm ev) (wstate c) of
             Inl e \<Rightarrow> c\<lparr>node := Crashed e\<rparr>
           | Inr s \<Rightarrow> c\<lparr>node := edge Coder, wstate := s\<rparr>)
      | Executor \<Rightarrow>
          (let (s, fs') = executor_node (sandbox ev) (files c) (wstate c)
           in c\<lparr>node := edge Executor, wstate := s, files := fs'\<rparr>)
      | Critic \<Rightarrow>
          (case critic_node loads (llm ev) (wstate c) of
             Inl e \<Rightarrow> c\<lparr>node := Crashed e\<rparr>
           | Inr s \<Rightarrow> c\<lparr>node := edge Critic, wstate := s\<rparr>)
      | Decide \<Rightarrow>
          (case should_continue (wstate c) of
             Inl e \<Rightarrow> c\<lparr>node := Crashed e\<rparr>
           | Inr (r, s) \<Rightarrow> c\<lparr>node := conditional_edge r, wstate := s\<rparr>)
      | End \<Rightarrow> c
      | Crashed e \<Rightarrow> c)"

definition run_events :: "(string \<Rightarrow> pyexn + pydict) \<Rightarrow> world_event list \<Rightarrow> config \<Rightarrow> config" where
  "run_events loads evs c = foldl (\<lambda>c ev. step loads ev c) c evs"

definition initial_state :: "string \<Rightarrow> string \<Rightarrow> int \<Rightarrow> VisualizationState" where
  "initial_state request url max_iter =
     \<lparr>user_request = request, dataset_url = url, iteration = 0, max_iterations = max_iter,
      generated_code = [], execution_result = [], critic_evaluation = [],
      final_viz_path = [], status = ''in_progress'', error_message = []\<rparr>"

definition initial_config :: "fs \<Rightarrow> string \<Rightarrow> string \<Rightarrow> int \<Rightarrow> config" where
  "initial_config fs0 request url max_iter =
     \<lparr>node = Coder, wstate = initial_state request url max_iter, files = fs0\<rparr>"

text \<open>
  The run against a finite record of the environment's answers: the final state, the
  exception that left the graph, or nothing yet when the answers end before the run does.
\<close>

definition run_visualization_workflow ::
  "(string \<Rightarrow> pyexn + pydict) \<Rightarrow> world_event list \<Rightarrow> fs \<Rightarrow> string \<Rightarrow> string \<Rightarrow> int
     \<Rightarrow> (pyexn + VisualizationState) option" where
  "run_visualization_workflow loads evs fs0 request url max_iter =
     (let c = run_events loads evs (initial_config fs0 request url max_iter)
      in case node c of
           End \<Rightarrow> Some (Inr (wstate c))
         | Crashed e \<Rightarrow> Some (Inl e)
         | _ \<Rightarrow> None)"

section \<open>The job store (api.py, cancel_job and run_job)\<close>

record job =
  job_status :: string
  job_user_request :: string
  job_dataset_url :: string
  job_max_iterations :: int
  job_created_at :: string
  job_result :: "VisualizationState option"
  job_error :: "string option"

type_synonym jobs_store = "string \<Rightarrow> job option"

datatype http_exception = HTTPException nat string

definition cancel_job :: "jobs_store \<Rightarrow> string \<Rightarrow> http_exception + (string \<times> jobs_store)" where
  "cancel_job store job_id =
     (case store job_id of
        None \<Rightarrow> Inl (HTTPException 404 ''Job not found'')
      | Some j \<Rightarrow>
          if job_status j \<in> set [''completed'', ''failed'']
          then Inl (HTTPException 400 ''Cannot cancel completed job'')
          else Inr (''Job '' @ job_id @ '' cancelled'',
                    store(job_id \<mapsto> j\<lparr>job_status := ''cancelled''\<rparr>)))"

text \<open>
  The background task. The workflow's outcome is an argument: the final state it
  returned, or the exception it raised. A key missing from the store raises
  \<^verbatim>\<open>KeyError\<close> in the handler as well, and that one escapes.
\<close>

definition run_job :: "jobs_store \<Rightarrow> string \<Rightarrow> (pyexn + VisualizationState) \<Rightarrow> pyexn + jobs_store" where
  "run_job store job_id outcome =
     (case store job_id of
        None \<Rightarrow> Inl (KeyError job_id)
      | Some j \<Rightarrow>
          let processing = j\<lparr>job_status := ''processing''\<rparr> in
          (case outcome of
             Inr res \<Rightarrow>
               Inr (store(job_id \<mapsto> processing\<lparr>job_result := Some res, job_status := ''completed''\<rparr>))
           | Inl e \<Rightarrow>
               Inr (store(job_id \<mapsto> processing\<lparr>job_error := Some (exn_str e), job_status := ''failed''\<rparr>))))"

section \<open>Readings of the specification's words\<close>

text \<open>The conditions the convergence policy is specified by, read off a state.\<close>

definition average_score :: "VisualizationState \<Rightarrow> pyval" where
  "average_score state = dict_get (critic_evaluation state) ''average_score'' (PInt 0)"

definition exec_success :: "VisualizationState \<Rightarrow> bool" where
  "exec_success state \<longleftrightarrow> dict_get (execution_result state) ''status'' PNone = PStr ''success''"

definition score_reached :: "VisualizationState \<Rightarrow> bool" where
  "score_reached state \<longleftrightarrow> ge_float (average_score state) 8 = Inr True"

definition budget_spent :: "VisualizationState \<Rightarrow> bool" where
  "budget_spent state \<longleftrightarrow> iteration state \<ge> max_iterations state"

definition emits_end_completed :: "VisualizationState \<Rightarrow> bool" where
  "emits_end_completed state \<longleftrightarrow>
     (\<exists>s. should_continue state = Inr (ToEnd, s) \<and> status s = ''completed'')"





text \<open>The lifecycle status of a stored job.\<close>

definition status_in :: "jobs_store \<Rightarrow> string \<Rightarrow> string option" where
  "status_in store job_id = map_option job_status (store job_id)"

text \<open>
  The invariant of the cycle: the iteration count is within the budget, and strictly
  below it whenever the generation step is about to run.
\<close>

definition within_budget :: "config \<Rightarrow> bool" where
  "within_budget c \<longleftrightarrow>
     iteration (wstate c) \<le> max_iterations (wstate c) \<and>
     (node c = Coder \<longrightarrow> iteration (wstate c) < max_iterations (wstate c))"

text \<open>
  What the extractor's two patterns find. A text contains a block opened by a fence when
  the fence is followed, anywhere behind it, by a closing fence. The first such block is
  the one whose fence is the first occurrence of the fence in the text and whose closing
  fence is the first one behind that.
\<close>

definition contains_block :: "string \<Rightarrow> string \<Rightarrow> bool" where
  "contains_block opening text \<longleftrightarrow>
     (\<exists>before contents behind. text = before @ opening @ contents @ closing_fence @ behind)"

definition first_block :: "string \<Rightarrow> string \<Rightarrow> string \<Rightarrow> bool" where
  "first_block opening text contents \<longleftrightarrow>
     (\<exists>before behind.
        text = before @ opening @ contents @ closing_fence @ behind \<and>
        \<not> sublist opening (before @ butlast opening) \<and>
        \<not> sublist closing_fence (contents @ butlast closing_fence))"



section \<open>Concrete inputs\<close>

text \<open>A score of 10 at the last allowed iteration.\<close>

definition score_ten_state :: VisualizationState where
  "score_ten_state =
     (initial_state ''plot'' ''data.csv'' 3)
       \<lparr>iteration := 3, critic_evaluation := [(''average_score'', PInt 10)],
        execution_result := exec_result ''success'' 0 [] []\<rparr>"

text \<open>
  The state the critic node leaves when the model answers
  \<^verbatim>\<open>{"average_score": "9"}\<close>: the parser hands the decoded object on as it is.
\<close>

definition text_score_state :: VisualizationState where
  "text_score_state =
     (initial_state ''plot'' ''data.csv'' 5)
       \<lparr>iteration := 1, critic_evaluation := [(''average_score'', PStr ''9'')],
        execution_result := exec_result ''success'' 0 [] []\<rparr>"

text \<open>A fragment that sleeps past the timeout, and one that exits with code 1.\<close>

definition sleeping_env :: exec_env where
  "sleeping_env =
     \<lparr>temp_file = ''/tmp/viz_code_1730000000.5.py'', write_outcome = Written,
      run_outcome = TimeoutExpired, child_effect = (\<lambda>disk. disk),
      remove_outcome = Removed, child_pid = 4242, descendants = {}\<rparr>"

definition sleeping_code :: string where
  "sleeping_code = ''import time; time.sleep(60)''"

definition failing_env :: exec_env where
  "failing_env =
     \<lparr>temp_file = ''/tmp/viz_code_1730000000.5.py'', write_outcome = Written,
      run_outcome = Completed 1 [] ''NameError'', child_effect = (\<lambda>disk. disk),
      remove_outcome = Removed, child_pid = 4242, descendants = {}\<rparr>"






definition forking_env :: exec_env where
  "forking_env =
     \<lparr>temp_file = ''/tmp/viz_code_1730000000.5.py'', write_outcome = Written,
      run_outcome = TimeoutExpired, child_effect = (\<lambda>disk. disk),
      remove_outcome = Removed, child_pid = 4242, descendants = {4243}\<rparr>"

definition forking_code :: string where
  "forking_code = ''import os, time; os.fork(); time.sleep(60)''"

text \<open>A store with one queued job, and the same store after the job was cancelled.\<close>

definition queued_job :: job where
  "queued_job =
     \<lparr>job_status = ''queued'', job_user_request = ''Create a scatter plot'',
      job_dataset_url = ''data.csv'', job_max_iterations = 3,
      job_created_at = ''2024-01-01T00:00:00'', job_result = None, job_error = None\<rparr>"

definition one_job_store :: jobs_store where
  "one_job_store = [''a1b2c3d4'' \<mapsto> queued_job]"

definition cancelled_store :: jobs_store where
  "cancelled_store = [''a1b2c3d4'' \<mapsto> queued_job\<lparr>job_status := ''cancelled''\<rparr>]"

text \<open>A final workflow state whose own status is \<^verbatim>\<open>failed\<close>.\<close>

definition failed_state :: VisualizationState where
  "failed_state =
     (initial_state ''Create a scatter plot'' ''data.csv'' 3)
       \<lparr>status := ''failed'', error_message := ''Coder Agent Error: connection refused''\<rparr>"

text \<open>
  A run with a budget of two iterations; an environment whose model is down, one whose
  model answers with plain code (the sandbox then exits with code 1), and one in which
  the model client cannot be built; a JSON decoder that rejects every document.
\<close>

definition no_parser :: "string \<Rightarrow> pyexn + pydict" where
  "no_parser s = Inl (JSONDecodeError ''Expecting value'')"

definition model_down :: world_event where
  "model_down = \<lparr>llm = InvokeRaises ''connection refused'', sandbox = failing_env\<rparr>"

definition model_answers :: world_event where
  "model_answers = \<lparr>llm = Responds ''print(x)'', sandbox = failing_env\<rparr>"

definition crashing_model :: world_event where
  "crashing_model = \<lparr>llm = InitRaises ''api key missing'', sandbox = failing_env\<rparr>"

definition fresh_run :: config where
  "fresh_run = initial_config Map.empty ''Create a scatter plot'' ''data.csv'' 2"

text \<open>A model reply with one python block, and one whose only block is tagged \<^verbatim>\<open>py\<close>.\<close>

definition python_reply :: string where
  "python_reply = ''Here is the code:\<newline>```python\<newline>print(1)\<newline>```\<newline>Done.''"

definition other_tag_reply :: string where
  "other_tag_reply = ''```py\<newline>x = 1\<newline>```''"


text \<open>A score of 5 at the first of five iterations; an untagged block; a run about to decide.\<close>




definition low_score_state :: VisualizationState where
  "low_score_state =
     (initial_state ''plot'' ''data.csv'' 5)
       \<lparr>iteration := 1, critic_evaluation := [(''average_score'', PFloat (Finite 5))],
        execution_result := exec_result ''success'' 0 [] []\<rparr>"

definition plain_reply :: string where
  "plain_reply = ''```\<newline>x = 5\<newline>```''"

definition deciding_run :: config where
  "deciding_run = \<lparr>node = Decide, wstate = score_ten_state, files = Map.empty\<rparr>"

section \<open>The convergence policy\<close>

lemma ge_float_number: "is_number v \<Longrightarrow> \<exists>b. ge_float v r = Inr b"
  by (cases "(v, r)" rule: ge_float.cases) auto

lemma should_continue_budget:
  "budget_spent state \<Longrightarrow> should_continue state = Inr (ToEnd, state\<lparr>status := ''completed''\<rparr>)"
  by (simp add: should_continue_def budget_spent_def)

lemma should_continue_number:
  assumes "is_number (average_score state)" "\<not> budget_spent state"
  shows "should_continue state =
     (if score_reached state \<and> exec_success state
      then Inr (ToEnd, state\<lparr>status := ''completed'', final_viz_path := ''visualization.png''\<rparr>)
      else Inr (ToCoder, state))"
proof -
  obtain b where b: "ge_float (average_score state) 8 = Inr b"
    using ge_float_number[OF assms(1)] by blast
  with assms(2) show ?thesis
    by (auto simp: should_continue_def budget_spent_def score_reached_def exec_success_def
          average_score_def Let_def)
qed

text \<open>
  C1, as amended. For a state whose evaluation has no \<^verbatim>\<open>average_score\<close> (it then counts
  as 0) or a number there, the policy emits \<^verbatim>\<open>end\<close> with the status set to
  \<^verbatim>\<open>completed\<close> exactly when the iteration budget is spent, or the score is at least 8.0
  and the last execution status is \<^verbatim>\<open>success\<close>; in every other case it emits
  \<^verbatim>\<open>coder\<close> and leaves the state as it was. When the budget is spent it emits
  \<^verbatim>\<open>end\<close> whatever the score is, of whatever type.
\<close>

theorem should_continue_policy:
  "(budget_spent state \<longrightarrow> should_continue state = Inr (ToEnd, state\<lparr>status := ''completed''\<rparr>)) \<and>
   (is_number (average_score state) \<longrightarrow>
      (emits_end_completed state \<longleftrightarrow> budget_spent state \<or> (score_reached state \<and> exec_success state)) \<and>
      (\<not> (budget_spent state \<or> (score_reached state \<and> exec_success state)) \<longrightarrow>
         should_continue state = Inr (ToCoder, state)))"
proof (cases "budget_spent state")
  case True
  then show ?thesis
    by (simp add: should_continue_budget emits_end_completed_def)
next
  case False
  then show ?thesis
    by (auto simp: should_continue_number emits_end_completed_def)
qed

theorem should_continue_policy_witness:
  "budget_spent score_ten_state \<and> is_number (average_score score_ten_state) \<and>
   emits_end_completed score_ten_state \<and>
   should_continue score_ten_state = Inr (ToEnd, score_ten_state\<lparr>status := ''completed''\<rparr>) \<and>
   \<not> budget_spent low_score_state \<and> is_number (average_score low_score_state) \<and>
   \<not> score_reached low_score_state \<and>
   should_continue low_score_state = Inr (ToCoder, low_score_state)"
  using should_continue_policy [of score_ten_state] should_continue_policy [of low_score_state]
  by (simp add: budget_spent_def average_score_def score_reached_def score_ten_state_def
        low_score_state_def initial_state_def dict_get_def)

text \<open>
  C1 as stated fails where the score is not a number: with the budget unspent and the
  condition on the score false, the policy emits neither \<^verbatim>\<open>end\<close> nor \<^verbatim>\<open>coder\<close>; the
  comparison raises \<^verbatim>\<open>TypeError\<close>.
\<close>

theorem should_continue_text_score_counterexample:
  "\<not> budget_spent text_score_state \<and> \<not> score_reached text_score_state \<and>
   \<not> emits_end_completed text_score_state \<and>
   should_continue text_score_state \<noteq> Inr (ToCoder, text_score_state) \<and>
   should_continue text_score_state = Inl (TypeError ''>= not supported between str and float'')"
  by (simp add: budget_spent_def score_reached_def emits_end_completed_def average_score_def
        should_continue_def text_score_state_def initial_state_def dict_get_def)

section \<open>The sandboxed executor\<close>






text \<open>
  The path on which \<^verbatim>\<open>subprocess.run\<close> returns removes the scratch file, whatever the
  child did, unless the removal itself raises.
\<close>

lemma execute_completed_removes:
  "write_outcome env = Written \<Longrightarrow> run_outcome env = Completed rc out err \<Longrightarrow>
   remove_outcome env = Removed \<Longrightarrow>
   snd (execute_code_safely env disk code timeout) (temp_file env) = None"
  by (simp add: execute_code_safely_def Let_def)

text \<open>
  C4 fails on the timeout path. For a fragment that sleeps past the timeout, on an empty
  file system, the executor returns status \<^verbatim>\<open>timeout\<close> and the scratch file it wrote is
  still there, with the fragment in it: only the path on which the process ends cleans up.
\<close>

theorem execute_timeout_keeps_scratch_file:
  "map_of (fst (execute_code_safely sleeping_env Map.empty sleeping_code 30)) ''status''
     = Some (PStr ''timeout'') \<and>
   snd (execute_code_safely sleeping_env Map.empty sleeping_code 30) (temp_file sleeping_env)
     = Some sleeping_code"
  by (simp add: execute_code_safely_def sleeping_env_def exec_result_def)

text \<open>
  C6 fails for a fragment that has started a process of its own. The fragment forks and
  both processes sleep past the timeout: the executor returns status \<^verbatim>\<open>timeout\<close>, the
  child that \<^verbatim>\<open>subprocess.run\<close> started is gone, and the process it forked is still
  running.
\<close>

theorem execute_timeout_leaves_descendant:
  "map_of (fst (execute_code_safely forking_env Map.empty forking_code 30)) ''status''
     = Some (PStr ''timeout'') \<and>
   processes_after forking_env {} = {4243} \<and>
   child_pid forking_env \<notin> processes_after forking_env {} \<and>
   processes_after forking_env {} \<noteq> {}"
  by (simp add: execute_code_safely_def processes_after_def forking_env_def exec_result_def)

section \<open>The job store\<close>

text \<open>
  C10. For a stored job whose workflow returned a final state, the background task sets
  the lifecycle status to \<^verbatim>\<open>completed\<close> and stores that state as the result, whatever
  the state is; its own status is never looked at, so it may be \<^verbatim>\<open>failed\<close>.
\<close>

theorem run_job_completed:
  "store job_id = Some j \<Longrightarrow>
   \<exists>store'. run_job store job_id (Inr res) = Inr store' \<and>
     status_in store' job_id = Some ''completed'' \<and>
     map_option job_result (store' job_id) = Some (Some res)"
  by (simp add: run_job_def status_in_def)

theorem run_job_completed_witness:
  "one_job_store ''a1b2c3d4'' = Some queued_job \<and> status failed_state = ''failed'' \<and>
   (\<exists>store'. run_job one_job_store ''a1b2c3d4'' (Inr failed_state) = Inr store' \<and>
     status_in store' ''a1b2c3d4'' = Some ''completed'' \<and>
     map_option job_result (store' ''a1b2c3d4'') = Some (Some failed_state))"
  using run_job_completed [of one_job_store "''a1b2c3d4''" queued_job failed_state]
  by (simp add: one_job_store_def failed_state_def)

text \<open>
  C9, as amended. Cancelling an unknown job answers 404. Cancelling a stored job is
  rejected (400) exactly when its status is \<^verbatim>\<open>completed\<close> or \<^verbatim>\<open>failed\<close>; in every
  other status, \<^verbatim>\<open>cancelled\<close> included, it is accepted and sets the status to
  \<^verbatim>\<open>cancelled\<close>, leaving the rest of the job and the store as they were. The background
  task does not read the status: run on a cancelled job, it leaves the status
  \<^verbatim>\<open>completed\<close> when the workflow returned and \<^verbatim>\<open>failed\<close> when it raised.
\<close>

theorem cancel_job_guard:
  "(store job_id = None \<longrightarrow> cancel_job store job_id = Inl (HTTPException 404 ''Job not found'')) \<and>
   (store job_id = Some j \<longrightarrow>
      (job_status j = ''completed'' \<or> job_status j = ''failed'' \<longrightarrow>
         cancel_job store job_id = Inl (HTTPException 400 ''Cannot cancel completed job'')) \<and>
      (job_status j \<noteq> ''completed'' \<and> job_status j \<noteq> ''failed'' \<longrightarrow>
         cancel_job store job_id =
           Inr (''Job '' @ job_id @ '' cancelled'', store(job_id \<mapsto> j\<lparr>job_status := ''cancelled''\<rparr>))) \<and>
      (job_status j = ''cancelled'' \<longrightarrow>
         (\<exists>msg store'. cancel_job store job_id = Inr (msg, store') \<and>
            status_in store' job_id = Some ''cancelled'') \<and>
         (\<exists>store'. run_job store job_id (Inr res) = Inr store' \<and>
            status_in store' job_id = Some ''completed'') \<and>
         (\<exists>store'. run_job store job_id (Inl e) = Inr store' \<and>
            status_in store' job_id = Some ''failed'')))"
  by (auto simp: cancel_job_def run_job_def status_in_def)

theorem cancel_job_guard_witness:
  "one_job_store ''a1b2c3d4'' = Some queued_job \<and>
   job_status queued_job \<noteq> ''completed'' \<and> job_status queued_job \<noteq> ''failed'' \<and>
   cancel_job one_job_store ''a1b2c3d4'' = Inr (''Job a1b2c3d4 cancelled'', cancelled_store) \<and>
   one_job_store ''ffffffff'' = None \<and>
   cancel_job one_job_store ''ffffffff'' = Inl (HTTPException 404 ''Job not found'') \<and>
   cancelled_store ''a1b2c3d4'' = Some (queued_job\<lparr>job_status := ''cancelled''\<rparr>) \<and>
   (\<exists>store'. run_job cancelled_store ''a1b2c3d4'' (Inr failed_state) = Inr store' \<and>
      status_in store' ''a1b2c3d4'' = Some ''completed'')"
  using cancel_job_guard [of one_job_store "''a1b2c3d4''" queued_job]
    cancel_job_guard [of one_job_store "''ffffffff''"]
    cancel_job_guard [of cancelled_store "''a1b2c3d4''" "queued_job\<lparr>job_status := ''cancelled''\<rparr>" failed_state]
  by (simp add: one_job_store_def queued_job_def cancelled_store_def)

text \<open>
  C9 as stated fails twice on one job. A queued job is cancelled; a second cancel on the
  now cancelled job is accepted, not rejected; and the job's background task, run
  afterwards, changes the status from \<^verbatim>\<open>cancelled\<close> to \<^verbatim>\<open>completed\<close>.
\<close>

theorem cancelled_not_terminal_counterexample:
  "cancel_job one_job_store ''a1b2c3d4'' = Inr (''Job a1b2c3d4 cancelled'', cancelled_store) \<and>
   status_in cancelled_store ''a1b2c3d4'' = Some ''cancelled'' \<and>
   cancel_job cancelled_store ''a1b2c3d4'' = Inr (''Job a1b2c3d4 cancelled'', cancelled_store) \<and>
   (case run_job cancelled_store ''a1b2c3d4'' (Inr score_ten_state) of
      Inr store' \<Rightarrow> status_in store' ''a1b2c3d4'' = Some ''completed''
    | Inl e \<Rightarrow> False)"
  by (simp add: cancel_job_def run_job_def one_job_store_def cancelled_store_def queued_job_def
        status_in_def)

section \<open>The workflow cycle\<close>

lemma coder_node_max: "coder_node l s = Inr s' \<Longrightarrow> max_iterations s' = max_iterations s"
  by (auto simp: coder_node_def split: llm_outcome.splits)

lemma coder_node_iteration:
  "coder_node l s = Inr s' \<Longrightarrow>
   iteration s' = iteration s + (if (\<exists>raw. l = Responds raw) then 1 else 0)"
  by (auto simp: coder_node_def split: llm_outcome.splits)

lemma executor_node_keeps:
  "executor_node env disk s = (s', disk') \<Longrightarrow>
   iteration s' = iteration s \<and> max_iterations s' = max_iterations s \<and> status s' = status s"
  by (auto simp: executor_node_def Let_def split: prod.splits if_splits)

lemma conditional_edge_coder: "conditional_edge r = Coder \<longleftrightarrow> r = ToCoder"
  by (cases r) simp_all

lemma critic_node_keeps:
  "critic_node loads l s = Inr s' \<Longrightarrow>
   iteration s' = iteration s \<and> max_iterations s' = max_iterations s \<and> status s' = status s"
  by (auto simp: critic_node_def critic_failed_def split: llm_outcome.splits sum.splits)

lemma should_continue_keeps:
  "should_continue s = Inr (r, s') \<Longrightarrow>
   iteration s' = iteration s \<and> max_iterations s' = max_iterations s \<and>
   (r = ToCoder \<longrightarrow> iteration s < max_iterations s)"
  by (auto simp: should_continue_def Let_def split: if_splits sum.splits)

lemma step_max: "max_iterations (wstate (step loads ev c)) = max_iterations (wstate c)"
proof (cases "node c")
  case Coder
  then show ?thesis
    by (auto simp: step_def split: sum.splits dest: coder_node_max)
next
  case Executor
  then show ?thesis
    by (auto simp: step_def split: prod.splits dest: executor_node_keeps)
next
  case Critic
  then show ?thesis
    by (auto simp: step_def split: sum.splits dest: critic_node_keeps)
next
  case Decide
  then show ?thesis
    by (auto simp: step_def split: sum.splits dest: should_continue_keeps)
qed (simp_all add: step_def)

lemma step_iteration:
  "iteration (wstate (step loads ev c)) =
     iteration (wstate c) + (if node c = Coder \<and> (\<exists>raw. llm ev = Responds raw) then 1 else 0)"
proof (cases "node c")
  case Coder
  then show ?thesis
    by (auto simp: step_def coder_node_def split: llm_outcome.splits)
next
  case Executor
  then show ?thesis
    by (auto simp: step_def split: prod.splits dest: executor_node_keeps)
next
  case Critic
  then show ?thesis
    by (auto simp: step_def split: sum.splits dest: critic_node_keeps)
next
  case Decide
  then show ?thesis
    by (auto simp: step_def split: sum.splits dest: should_continue_keeps)
qed (simp_all add: step_def)

lemma step_to_coder:
  assumes "node (step loads ev c) = Coder"
  shows "node c = Decide \<and> iteration (wstate c) < max_iterations (wstate c)"
proof (cases "node c")
  case Coder
  with assms show ?thesis
    by (auto simp: step_def split: sum.splits)
next
  case Executor
  with assms show ?thesis
    by (simp add: step_def split: prod.splits)
next
  case Critic
  with assms show ?thesis
    by (auto simp: step_def split: sum.splits)
next
  case Decide
  with assms show ?thesis
    by (auto simp: step_def conditional_edge_coder split: sum.splits dest: should_continue_keeps)
next
  case End
  with assms show ?thesis by (simp add: step_def)
next
  case (Crashed e)
  with assms show ?thesis by (simp add: step_def)
qed

lemma step_within_budget:
  assumes "within_budget c"
  shows "within_budget (step loads ev c)"
proof -
  have le: "iteration (wstate (step loads ev c)) \<le> max_iterations (wstate (step loads ev c))"
    using assms by (auto simp: step_iteration step_max within_budget_def)
  have "iteration (wstate (step loads ev c)) < max_iterations (wstate (step loads ev c))"
    if "node (step loads ev c) = Coder"
    using step_to_coder[OF that] by (auto simp: step_iteration step_max)
  with le show ?thesis
    by (simp add: within_budget_def)
qed

lemma run_events_within_budget: "within_budget c \<Longrightarrow> within_budget (run_events loads evs c)"
  unfolding run_events_def
  by (induction evs arbitrary: c) (simp_all add: step_within_budget)

lemma run_events_max:
  "max_iterations (wstate (run_events loads evs c)) = max_iterations (wstate c)"
  unfolding run_events_def
  by (induction evs arbitrary: c) (simp_all add: step_max)

text \<open>
  C2, as amended. For a run started by \<^verbatim>\<open>run_visualization_workflow\<close> (iteration 0) with a positive
  \<^verbatim>\<open>max_iterations\<close>, after every node that runs, whatever the environment answers, the
  iteration count is at most \<^verbatim>\<open>max_iterations\<close>, which itself never changes. The count
  is strictly below the budget whenever the generation step is about to run, so the
  policy has stopped the loop before a further generation once the budget is reached; and
  a node changes the count only by the generation step adding exactly one when its model
  call answered (a generation whose model call raised leaves it as it was).
\<close>

theorem iteration_within_budget:
  assumes "0 < max_iter"
  shows "iteration (wstate (run_events loads evs (initial_config fs0 request url max_iter))) \<le> max_iter \<and>
     max_iterations (wstate (run_events loads evs (initial_config fs0 request url max_iter))) = max_iter \<and>
     (node (run_events loads evs (initial_config fs0 request url max_iter)) = Coder \<longrightarrow>
        iteration (wstate (run_events loads evs (initial_config fs0 request url max_iter))) < max_iter) \<and>
     iteration (wstate (step loads ev c)) =
       iteration (wstate c) + (if node c = Coder \<and> (\<exists>raw. llm ev = Responds raw) then 1 else 0)"
proof -
  let ?c0 = "initial_config fs0 request url max_iter"
  have "within_budget ?c0"
    using assms by (simp add: within_budget_def initial_config_def initial_state_def)
  then have "within_budget (run_events loads evs ?c0)"
    by (rule run_events_within_budget)
  moreover have "max_iterations (wstate (run_events loads evs ?c0)) = max_iter"
    by (simp add: run_events_max initial_config_def initial_state_def)
  ultimately show ?thesis
    by (simp add: within_budget_def step_iteration)
qed

text \<open>The definitions a concrete run unfolds.\<close>

lemmas run_simps = run_events_def step_def fresh_run_def initial_config_def initial_state_def
  model_answers_def model_down_def coder_node_def executor_node_def critic_node_def
  critic_failed_def degraded_evaluation_def should_continue_def execute_code_safely_def
  failing_env_def exec_result_def dict_get_def extract_code_block_def first_group_def
  python_fence_def plain_fence_def closing_fence_def parse_json_evaluation_def search_braces_def
  no_parser_def fallback_evaluation_def

theorem iteration_within_budget_witness:
  "(0::int) < 2 \<and>
   node (run_events no_parser [model_answers, model_answers, model_answers, model_answers] fresh_run) = Coder \<and>
   iteration (wstate (run_events no_parser [model_answers, model_answers, model_answers, model_answers] fresh_run)) = 1 \<and>
   iteration (wstate (run_events no_parser [model_answers, model_answers, model_answers, model_answers] fresh_run)) \<le> 2"
  using iteration_within_budget [of 2 no_parser "[model_answers, model_answers, model_answers, model_answers]"
      Map.empty "''Create a scatter plot''" "''data.csv''"]
  by (simp add: run_simps)

text \<open>
  C2 as stated fails in its account of the generation step: a pass through the step whose
  model call raises does not increment the count. The run goes on to the executor with
  the count still 0.
\<close>

theorem failed_generation_counterexample:
  "node fresh_run = Coder \<and> llm model_down = InvokeRaises ''connection refused'' \<and>
   node (step no_parser model_down fresh_run) = Executor \<and>
   iteration (wstate fresh_run) = 0 \<and>
   iteration (wstate (step no_parser model_down fresh_run)) = 0"
  by (simp add: run_simps)

text \<open>
  C3 as stated fails. With the model down at the first generation step, the status
  becomes \<^verbatim>\<open>failed\<close> and the run goes on: the executor, the critic and the decision node
  run on that state, the policy loops back, and the next generation step, its model
  answering, sets the status back to \<^verbatim>\<open>in_progress\<close>.
\<close>

theorem coder_failure_counterexample:
  "node (run_events no_parser [model_down] fresh_run) = Executor \<and>
   status (wstate (run_events no_parser [model_down] fresh_run)) = ''failed'' \<and>
   node (run_events no_parser [model_down, model_down] fresh_run) = Critic \<and>
   node (run_events no_parser [model_down, model_down, model_down] fresh_run) = Decide \<and>
   node (run_events no_parser [model_down, model_down, model_down, model_down] fresh_run) = Coder \<and>
   status (wstate (run_events no_parser
      [model_down, model_down, model_down, model_down, model_answers] fresh_run)) = ''in_progress''"
  by (simp add: run_simps)


lemma step_node_status:
  "node (step loads ev (c\<lparr>wstate := (wstate c)\<lparr>status := st\<rparr>\<rparr>)) = node (step loads ev c)"
proof (cases "node c")
  case Coder
  then show ?thesis
    by (simp add: step_def coder_node_def split: llm_outcome.splits)
next
  case Executor
  then show ?thesis
    by (simp add: step_def split: prod.splits)
next
  case Critic
  then show ?thesis
    by (simp add: step_def critic_node_def split: llm_outcome.splits sum.splits)
next
  case Decide
  then show ?thesis
    by (simp add: step_def should_continue_def Let_def split: sum.splits)
qed (simp_all add: step_def)

lemma step_decide_node:
  "node c = Decide \<Longrightarrow>
   node (step loads ev c) =
     (case should_continue (wstate c) of Inl e \<Rightarrow> Crashed e | Inr (r, s) \<Rightarrow> conditional_edge r)"
  by (simp add: step_def split: sum.splits prod.splits)

lemma step_decide_end:
  assumes "node c = Decide" "node (step loads ev c) = End"
  shows "status (wstate (step loads ev c)) = ''completed''"
proof (cases "should_continue (wstate c)")
  case (Inl e)
  with assms show ?thesis by (simp add: step_def)
next
  case (Inr p)
  obtain r s where p: "p = (r, s)" by (cases p)
  with Inr assms have "r = ToEnd"
    by (cases r) (simp_all add: step_def)
  with Inr p have "status s = ''completed''"
    by (auto simp: should_continue_def Let_def split: if_splits sum.splits)
  with Inr p assms show ?thesis by (simp add: step_def)
qed

lemma step_hands_on:
  "node c \<noteq> End \<Longrightarrow> (\<forall>e. node c \<noteq> Crashed e) \<Longrightarrow> node (step loads ev c) \<noteq> node c"
proof (cases "node c")
  case Coder
  then show ?thesis by (simp add: step_def split: sum.splits)
next
  case Executor
  then show ?thesis by (simp add: step_def split: prod.splits)
next
  case Critic
  then show ?thesis by (simp add: step_def split: sum.splits)
next
  case Decide
  then show ?thesis
    by (auto simp: step_def split: sum.splits) (metis conditional_edge.simps node.distinct route.exhaust)
qed simp_all

lemma step_to_end:
  "node (step loads ev c) = End \<Longrightarrow> node c = End \<or> node c = Decide"
  by (cases "node c") (auto simp: step_def split: sum.splits prod.splits)

lemma run_events_stopped:
  "node c = End \<or> (\<exists>e. node c = Crashed e) \<Longrightarrow> run_events loads evs c = c"
  unfolding run_events_def
  by (induction evs) (auto simp: step_def)

lemma ge_float_raises: "ge_float v r = Inl e \<Longrightarrow> \<exists>m. e = TypeError m"
  by (cases "(v, r)" rule: ge_float.cases) auto

lemma should_continue_raises: "should_continue s = Inl e \<Longrightarrow> \<exists>m. e = TypeError m"
  by (auto simp: should_continue_def Let_def split: if_splits sum.splits dest: ge_float_raises)

lemma step_crash_origin:
  assumes "\<forall>x. node c \<noteq> Crashed x" "node (step loads ev c) = Crashed exn"
  shows "((node c = Coder \<or> node c = Critic) \<and>
       (\<exists>m. llm ev = InitRaises m \<and> exn = OtherException m)) \<or>
      (node c = Decide \<and> should_continue (wstate c) = Inl exn \<and> (\<exists>m. exn = TypeError m))"
proof (cases "node c")
  case Coder
  with assms(2) show ?thesis
    by (auto simp: step_def coder_node_def split: llm_outcome.splits)
next
  case Executor
  with assms(2) show ?thesis
    by (simp add: step_def split: prod.splits)
next
  case Critic
  with assms(2) show ?thesis
    by (auto simp: step_def critic_node_def split: llm_outcome.splits sum.splits)
next
  case Decide
  show ?thesis
  proof (cases "should_continue (wstate c)")
    case (Inl e)
    with Decide assms(2) have "e = exn" by (simp add: step_def)
    with Inl Decide show ?thesis using should_continue_raises by blast
  next
    case (Inr p)
    obtain r s where "p = (r, s)" by (cases p)
    with Inr Decide assms(2) show ?thesis
      by (cases r) (simp_all add: step_def)
  qed
next
  case End
  with assms(2) show ?thesis by (simp add: step_def)
next
  case (Crashed x)
  with assms(1) show ?thesis by simp
qed

text \<open>
  C3, as amended. A generation step whose model invocation raises sets
  \<^verbatim>\<open>error_message\<close> and \<^verbatim>\<open>status = failed\<close>, changes nothing else, and hands on to the
  executor. No node and no edge reads the status: the node that runs next is the same
  whatever the status is. The executor hands on to the critic, the critic to the policy
  (unless its model client cannot be built), and the policy's own answer decides what
  follows it. A later generation step whose model answers sets the status to
  \<^verbatim>\<open>in_progress\<close>, and the policy's \<^verbatim>\<open>end\<close> sets it to \<^verbatim>\<open>completed\<close>, whatever it
  was. The end is reached from the policy only, and an exception leaves the graph only
  where the model client of the coder or the critic cannot be built or the policy raises
  \<^verbatim>\<open>TypeError\<close>. Every node but the end and a crash hands on to another node, so a
  run stops only in one of these two ways; from there on no node runs and nothing changes.
\<close>

theorem coder_failure_continues:
  "(node c = Coder \<and> llm ev = InvokeRaises msg \<longrightarrow>
      step loads ev c =
        c\<lparr>node := Executor,
          wstate := (wstate c)\<lparr>error_message := ''Coder Agent Error: '' @ msg, status := ''failed''\<rparr>\<rparr>) \<and>
   node (step loads ev (c\<lparr>wstate := (wstate c)\<lparr>status := st\<rparr>\<rparr>)) = node (step loads ev c) \<and>
   (node c = Executor \<longrightarrow> node (step loads ev c) = Critic) \<and>
   (node c = Critic \<longrightarrow>
      node (step loads ev c) = Decide \<or>
      (\<exists>m. llm ev = InitRaises m \<and> node (step loads ev c) = Crashed (OtherException m))) \<and>
   (node c = Decide \<longrightarrow>
      node (step loads ev c) =
        (case should_continue (wstate c) of Inl e \<Rightarrow> Crashed e | Inr (r, s) \<Rightarrow> conditional_edge r)) \<and>
   (node c = Coder \<and> llm ev = Responds raw \<longrightarrow>
      status (wstate (step loads ev c)) = ''in_progress'') \<and>
   (node c = Decide \<and> node (step loads ev c) = End \<longrightarrow>
      status (wstate (step loads ev c)) = ''completed'') \<and>
   (node (step loads ev c) = End \<longrightarrow> node c = End \<or> node c = Decide) \<and>
   (node c \<noteq> End \<and> (\<forall>e. node c \<noteq> Crashed e) \<longrightarrow> node (step loads ev c) \<noteq> node c) \<and>
   (node c = End \<or> (\<exists>e. node c = Crashed e) \<longrightarrow> run_events loads evs c = c) \<and>
   ((\<forall>x. node c \<noteq> Crashed x) \<and> node (step loads ev c) = Crashed exn \<longrightarrow>
      ((node c = Coder \<or> node c = Critic) \<and>
       (\<exists>m. llm ev = InitRaises m \<and> exn = OtherException m)) \<or>
      (node c = Decide \<and> should_continue (wstate c) = Inl exn \<and> (\<exists>m. exn = TypeError m)))"
proof -
  have c1: "node c = Coder \<and> llm ev = InvokeRaises msg \<longrightarrow>
      step loads ev c =
        c\<lparr>node := Executor,
          wstate := (wstate c)\<lparr>error_message := ''Coder Agent Error: '' @ msg, status := ''failed''\<rparr>\<rparr>"
    by (simp add: step_def coder_node_def)
  have c2: "node (step loads ev (c\<lparr>wstate := (wstate c)\<lparr>status := st\<rparr>\<rparr>)) = node (step loads ev c)"
    by (rule step_node_status)
  have c3: "node c = Executor \<longrightarrow> node (step loads ev c) = Critic"
    by (simp add: step_def split: prod.splits)
  have c4: "node c = Critic \<longrightarrow>
      node (step loads ev c) = Decide \<or>
      (\<exists>m. llm ev = InitRaises m \<and> node (step loads ev c) = Crashed (OtherException m))"
    by (auto simp: step_def critic_node_def split: llm_outcome.splits sum.splits)
  have c5: "node c = Decide \<longrightarrow>
      node (step loads ev c) =
        (case should_continue (wstate c) of Inl e \<Rightarrow> Crashed e | Inr (r, s) \<Rightarrow> conditional_edge r)"
    using step_decide_node[of c loads ev] by blast
  have c6: "node c = Coder \<and> llm ev = Responds raw \<longrightarrow>
      status (wstate (step loads ev c)) = ''in_progress''"
    by (simp add: step_def coder_node_def)
  have c7: "node c = Decide \<and> node (step loads ev c) = End \<longrightarrow>
      status (wstate (step loads ev c)) = ''completed''"
    using step_decide_end[of c loads ev] by blast
  have c8: "node (step loads ev c) = End \<longrightarrow> node c = End \<or> node c = Decide"
    using step_to_end[of loads ev c] by blast
  have c9: "node c \<noteq> End \<and> (\<forall>e. node c \<noteq> Crashed e) \<longrightarrow> node (step loads ev c) \<noteq> node c"
    using step_hands_on[of c loads ev] by blast
  have c10: "node c = End \<or> (\<exists>e. node c = Crashed e) \<longrightarrow> run_events loads evs c = c"
    using run_events_stopped[of c loads evs] by blast
  have c11: "(\<forall>x. node c \<noteq> Crashed x) \<and> node (step loads ev c) = Crashed exn \<longrightarrow>
      ((node c = Coder \<or> node c = Critic) \<and>
       (\<exists>m. llm ev = InitRaises m \<and> exn = OtherException m)) \<or>
      (node c = Decide \<and> should_continue (wstate c) = Inl exn \<and> (\<exists>m. exn = TypeError m))"
    using step_crash_origin[of c loads ev exn] by blast
  show ?thesis
    by (intro conjI) (rule c1 c2 c3 c4 c5 c6 c7 c8 c9 c10 c11)+
qed

theorem coder_failure_continues_witness:
  "node fresh_run = Coder \<and> llm model_down = InvokeRaises ''connection refused'' \<and>
   node (step no_parser model_down fresh_run) = Executor \<and>
   status (wstate (step no_parser model_down fresh_run)) = ''failed'' \<and>
   iteration (wstate (step no_parser model_down fresh_run)) = 0 \<and>
   node (step no_parser model_down (fresh_run\<lparr>node := Executor\<rparr>)) = Critic \<and>
   node (step no_parser model_down (fresh_run\<lparr>node := Critic\<rparr>)) = Decide \<and>
   node (step no_parser crashing_model (fresh_run\<lparr>node := Critic\<rparr>))
     = Crashed (OtherException ''api key missing'') \<and>
   node (step no_parser model_down (fresh_run\<lparr>node := Decide\<rparr>)) = Coder \<and>
   llm model_answers = Responds ''print(x)'' \<and>
   status (wstate (step no_parser model_answers ((step no_parser model_down fresh_run)\<lparr>node := Coder\<rparr>)))
     = ''in_progress'' \<and>
   node deciding_run = Decide \<and> node (step no_parser model_down deciding_run) = End \<and>
   status (wstate (step no_parser model_down deciding_run)) = ''completed'' \<and>
   run_events no_parser [model_answers, model_down] (step no_parser model_down deciding_run)
     = step no_parser model_down deciding_run"
proof -
  have n0: "node fresh_run = Coder"
    by (simp add: fresh_run_def initial_config_def)
  have l0: "llm model_down = InvokeRaises ''connection refused''"
    by (simp add: model_down_def)
  have l1: "llm model_answers = Responds ''print(x)''"
    by (simp add: model_answers_def)
  have l2: "llm crashing_model = InitRaises ''api key missing''"
    by (simp add: crashing_model_def)
  have s1: "step no_parser model_down fresh_run =
      fresh_run\<lparr>node := Executor,
        wstate := (wstate fresh_run)\<lparr>error_message := ''Coder Agent Error: '' @ ''connection refused'',
          status := ''failed''\<rparr>\<rparr>"
    using coder_failure_continues [of fresh_run model_down "''connection refused''" no_parser] n0 l0
    by simp
  have a: "node (step no_parser model_down fresh_run) = Executor"
      "status (wstate (step no_parser model_down fresh_run)) = ''failed''"
      "iteration (wstate (step no_parser model_down fresh_run)) = 0"
    unfolding s1 by (simp_all add: fresh_run_def initial_config_def initial_state_def)
  have b: "node (step no_parser model_down (fresh_run\<lparr>node := Executor\<rparr>)) = Critic"
    using coder_failure_continues [of "fresh_run\<lparr>node := Executor\<rparr>" model_down _ no_parser]
    by simp
  have c: "node (step no_parser model_down (fresh_run\<lparr>node := Critic\<rparr>)) = Decide"
    using coder_failure_continues [of "fresh_run\<lparr>node := Critic\<rparr>" model_down _ no_parser] l0
    by simp
  have d: "node (step no_parser crashing_model (fresh_run\<lparr>node := Critic\<rparr>))
      = Crashed (OtherException ''api key missing'')"
    by (simp add: step_def critic_node_def l2)
  have d': "\<forall>x. node (fresh_run\<lparr>node := Critic\<rparr>) \<noteq> Crashed x"
    by simp
  have d'': "llm crashing_model = InitRaises ''api key missing'' \<and>
      OtherException ''api key missing'' = OtherException ''api key missing''"
    using coder_failure_continues [of "fresh_run\<lparr>node := Critic\<rparr>" crashing_model _ no_parser _ _ _
        "OtherException ''api key missing''"] d d' l2
    by simp
  have sc: "should_continue (wstate fresh_run) = Inr (ToCoder, wstate fresh_run)"
    by (simp add: should_continue_def fresh_run_def initial_config_def initial_state_def dict_get_def)
  have e: "node (step no_parser model_down (fresh_run\<lparr>node := Decide\<rparr>)) = Coder"
    using coder_failure_continues [of "fresh_run\<lparr>node := Decide\<rparr>" model_down _ no_parser] sc
    by simp
  have f: "status (wstate (step no_parser model_answers
      ((step no_parser model_down fresh_run)\<lparr>node := Coder\<rparr>))) = ''in_progress''"
    using coder_failure_continues [of "(step no_parser model_down fresh_run)\<lparr>node := Coder\<rparr>"
      model_answers _ no_parser _ "''print(x)''"] l1
    by simp
  have n1: "node deciding_run = Decide"
    by (simp add: deciding_run_def)
  have g: "node (step no_parser model_down deciding_run) = End"
    by (simp add: step_def deciding_run_def should_continue_def score_ten_state_def initial_state_def)
  have h: "status (wstate (step no_parser model_down deciding_run)) = ''completed''"
    using coder_failure_continues [of deciding_run model_down _ no_parser] n1 g
    by simp
  have i: "run_events no_parser [model_answers, model_down] (step no_parser model_down deciding_run)
      = step no_parser model_down deciding_run"
    using coder_failure_continues [of "step no_parser model_down deciding_run" _ _ no_parser _ _
      "[model_answers, model_down]"] g
    by simp
  from n0 l0 a b c d e l1 f n1 g h i show ?thesis
    by simp
qed

section \<open>The code extractor\<close>

lemma prefix_shorter: "prefix l (a @ b) \<Longrightarrow> length l \<le> length a \<Longrightarrow> prefix l a"
  by (auto simp: prefix_append)

lemma not_sublist_butlast: "l \<noteq> [] \<Longrightarrow> \<not> sublist l (butlast l)"
  using sublist_length_le[of l "butlast l"] by (cases l) auto

lemma text_after_None: "text_after l doc = None \<longleftrightarrow> \<not> sublist l doc"
  by (induction doc) (auto simp: sublist_Cons_right)

lemma text_before_None: "text_before l doc = None \<longleftrightarrow> \<not> sublist l doc"
  by (induction doc) (auto simp: sublist_Cons_right)

lemma butlast_prefix: "l \<noteq> [] \<Longrightarrow> prefix (p @ butlast l) (p @ l @ r)"
  by (metis append_butlast_last_id append_assoc prefixI)

lemma text_after_Some:
  "l \<noteq> [] \<Longrightarrow> text_after l doc = Some rest \<Longrightarrow>
   \<exists>before. doc = before @ l @ rest \<and> \<not> sublist l (before @ butlast l)"
proof (induction doc)
  case Nil
  then show ?case by simp
next
  case (Cons c cs)
  show ?case
  proof (cases "prefix l (c # cs)")
    case True
    with Cons.prems have "rest = drop (length l) (c # cs)" by simp
    with True have "c # cs = [] @ l @ rest"
      by (metis append_Nil append_eq_conv_conj prefixE)
    with Cons.prems(1) show ?thesis
      using not_sublist_butlast by (metis append_Nil)
  next
    case False
    with Cons.prems have "text_after l cs = Some rest" by simp
    with Cons.IH Cons.prems(1) obtain before where
      b: "cs = before @ l @ rest" "\<not> sublist l (before @ butlast l)" by blast
    have "\<not> prefix l (c # before @ butlast l)"
    proof
      assume "prefix l (c # before @ butlast l)"
      moreover have "prefix (c # before @ butlast l) (c # cs)"
        using b(1) butlast_prefix[OF Cons.prems(1), of before rest] by simp
      ultimately show False using False by (metis prefix_order.trans)
    qed
    with b show ?thesis
      by (intro exI[of _ "c # before"]) (simp add: sublist_Cons_right)
  qed
qed

lemma text_before_Some:
  "l \<noteq> [] \<Longrightarrow> text_before l doc = Some contents \<Longrightarrow>
   \<exists>behind. doc = contents @ l @ behind \<and> \<not> sublist l (contents @ butlast l)"
proof (induction doc arbitrary: contents)
  case Nil
  then show ?case by simp
next
  case (Cons c cs)
  show ?case
  proof (cases "prefix l (c # cs)")
    case True
    with Cons.prems have "contents = []" by simp
    with True Cons.prems(1) show ?thesis
      using not_sublist_butlast by (auto simp: prefix_def)
  next
    case False
    with Cons.prems obtain m where m: "text_before l cs = Some m" "contents = c # m"
      by auto
    with Cons.IH Cons.prems(1) obtain behind where
      b: "cs = m @ l @ behind" "\<not> sublist l (m @ butlast l)" by blast
    have "\<not> prefix l (c # m @ butlast l)"
    proof
      assume "prefix l (c # m @ butlast l)"
      moreover have "prefix (c # m @ butlast l) (c # cs)"
        using b(1) butlast_prefix[OF Cons.prems(1), of m behind] by simp
      ultimately show False using False by (metis prefix_order.trans)
    qed
    with b m show ?thesis
      by (intro exI[of _ behind]) (simp add: sublist_Cons_right)
  qed
qed

lemma text_after_first:
  "\<not> sublist l (before @ butlast l) \<Longrightarrow> text_after l (before @ l @ rest) = Some rest"
proof (induction before)
  case Nil
  then have "l \<noteq> []" by auto
  then obtain a l' where "l = a # l'" by (cases l) auto
  then show ?case by simp
next
  case (Cons c p)
  then have l: "l \<noteq> []" by auto
  have "\<not> prefix l ((c # p) @ l @ rest)"
  proof
    assume "prefix l ((c # p) @ l @ rest)"
    then have "prefix l (((c # p) @ butlast l) @ [last l] @ rest)"
      using l by (metis append.assoc append_butlast_last_id)
    then have "prefix l ((c # p) @ butlast l)"
      using l by (intro prefix_shorter[of l "(c # p) @ butlast l" "[last l] @ rest"]) auto
    with Cons.prems show False by auto
  qed
  moreover have "\<not> sublist l (p @ butlast l)"
    using Cons.prems by (simp add: sublist_Cons_right)
  ultimately show ?case using Cons.IH by simp
qed

lemma text_before_first:
  "\<not> sublist l (contents @ butlast l) \<Longrightarrow> text_before l (contents @ l @ behind) = Some contents"
proof (induction contents)
  case Nil
  then have "l \<noteq> []" by auto
  then obtain a l' where "l = a # l'" by (cases l) auto
  then show ?case by simp
next
  case (Cons c p)
  then have l: "l \<noteq> []" by auto
  have "\<not> prefix l ((c # p) @ l @ behind)"
  proof
    assume "prefix l ((c # p) @ l @ behind)"
    then have "prefix l (((c # p) @ butlast l) @ [last l] @ behind)"
      using l by (metis append.assoc append_butlast_last_id)
    then have "prefix l ((c # p) @ butlast l)"
      using l by (intro prefix_shorter[of l "(c # p) @ butlast l" "[last l] @ behind"]) auto
    with Cons.prems show False by auto
  qed
  moreover have "\<not> sublist l (p @ butlast l)"
    using Cons.prems by (simp add: sublist_Cons_right)
  ultimately show ?case using Cons.IH by simp
qed

lemma text_after_leftmost:
  "doc = a @ l @ y \<Longrightarrow> text_after l doc = Some rest \<Longrightarrow> suffix y rest"
proof (induction doc arbitrary: a)
  case Nil
  then show ?case by (auto split: if_splits)
next
  case (Cons c cs)
  show ?case
  proof (cases "prefix l (c # cs)")
    case True
    with Cons.prems(2) have "rest = drop (length l) (c # cs)" by simp
    then have "rest = drop (length l) ((a @ l) @ y)"
      using Cons.prems(1) by simp
    then have "rest = drop (length l) (a @ l) @ y" by simp
    then show ?thesis by (simp add: suffix_def)
  next
    case False
    with Cons.prems have "a \<noteq> []" by (cases a) auto
    then obtain a' where a: "a = c # a'" using Cons.prems(1) by (cases a) auto
    with Cons.prems False show ?thesis
      using Cons.IH[of a'] by simp
  qed
qed

lemma first_group_Some:
  assumes "fence \<noteq> []"
  shows "first_group fence closing_fence doc = Some m \<longleftrightarrow> first_block fence doc m"
proof
  have c: "closing_fence \<noteq> []" by (simp add: closing_fence_def)
  assume "first_group fence closing_fence doc = Some m"
  then obtain rest where r: "text_after fence doc = Some rest"
      "text_before closing_fence rest = Some m"
    by (auto simp: first_group_def split: option.splits)
  from text_after_Some[OF assms r(1)] text_before_Some[OF c r(2)]
  show "first_block fence doc m"
    unfolding first_block_def by blast
next
  assume "first_block fence doc m"
  then obtain before behind where
    t: "doc = before @ fence @ m @ closing_fence @ behind"
      "\<not> sublist fence (before @ butlast fence)"
      "\<not> sublist closing_fence (m @ butlast closing_fence)"
    unfolding first_block_def by blast
  show "first_group fence closing_fence doc = Some m"
    using text_after_first[OF t(2)] text_before_first[OF t(3)]
    by (simp add: first_group_def t(1))
qed

lemma first_block_contains: "first_block fence doc m \<Longrightarrow> contains_block fence doc"
  unfolding first_block_def contains_block_def by blast

lemma first_group_None:
  assumes "fence \<noteq> []"
  shows "first_group fence closing_fence doc = None \<longleftrightarrow> \<not> contains_block fence doc"
proof
  assume n: "first_group fence closing_fence doc = None"
  show "\<not> contains_block fence doc"
  proof
    assume "contains_block fence doc"
    then obtain a x b where t: "doc = a @ fence @ x @ closing_fence @ b"
      unfolding contains_block_def by blast
    then have "sublist fence doc" by auto
    then obtain rest where r: "text_after fence doc = Some rest"
      using text_after_None[of fence doc] by auto
    from text_after_leftmost[OF t r] obtain z where "rest = z @ x @ closing_fence @ b"
      by (auto simp: suffix_def)
    then have "rest = (z @ x) @ closing_fence @ b" by simp
    then have "sublist closing_fence rest"
      using sublist_appendI by metis
    with n r show False
      by (simp add: first_group_def text_before_None)
  qed
next
  assume n: "\<not> contains_block fence doc"
  show "first_group fence closing_fence doc = None"
  proof (rule ccontr)
    assume "first_group fence closing_fence doc \<noteq> None"
    then obtain m where "first_group fence closing_fence doc = Some m" by auto
    then have "first_block fence doc m"
      using first_group_Some[OF assms] by simp
    with n show False using first_block_contains by blast
  qed
qed

text \<open>
  C8, as amended. The extractor applies this ordered policy. If the text contains a block
  opened by three backticks, \<^verbatim>\<open>python\<close> and a newline, it returns the contents of the
  first such block. Otherwise, if it contains a block opened by three backticks and a
  newline (no tag), it returns the contents of the first such block. Otherwise it returns
  the text unchanged. In particular, where a python block, or without any python block
  an untagged one, is the first of its kind with contents \<open>x\<close>, extraction returns exactly
  \<open>x\<close>: nothing is trimmed.
\<close>

theorem extract_code_block_policy:
  "(contains_block python_fence doc \<longrightarrow> first_block python_fence doc (extract_code_block doc)) \<and>
   (\<not> contains_block python_fence doc \<and> contains_block plain_fence doc \<longrightarrow>
      first_block plain_fence doc (extract_code_block doc)) \<and>
   (\<not> contains_block python_fence doc \<and> \<not> contains_block plain_fence doc \<longrightarrow>
      extract_code_block doc = doc) \<and>
   (first_block python_fence doc x \<longrightarrow> extract_code_block doc = x) \<and>
   (\<not> contains_block python_fence doc \<and> first_block plain_fence doc x \<longrightarrow>
      extract_code_block doc = x)"
proof -
  have py: "python_fence \<noteq> []" and pl: "plain_fence \<noteq> []"
    by (simp_all add: python_fence_def plain_fence_def)
  note some = first_group_Some[OF py] first_group_Some[OF pl]
  note none = first_group_None[OF py] first_group_None[OF pl]
  have a: "first_block python_fence doc (extract_code_block doc)"
    if "contains_block python_fence doc"
  proof -
    from that obtain m where m: "first_group python_fence closing_fence doc = Some m"
      using none(1)[of doc] by auto
    then show ?thesis using some(1)[of doc m] by (simp add: extract_code_block_def)
  qed
  have b: "first_block plain_fence doc (extract_code_block doc)"
    if "\<not> contains_block python_fence doc" "contains_block plain_fence doc"
  proof -
    from that obtain m where m: "first_group plain_fence closing_fence doc = Some m"
      using none(2)[of doc] by auto
    with that(1) show ?thesis
      using some(2)[of doc m] none(1)[of doc] by (simp add: extract_code_block_def)
  qed
  have c: "extract_code_block doc = doc"
    if "\<not> contains_block python_fence doc" "\<not> contains_block plain_fence doc"
    using that none(1)[of doc] none(2)[of doc] by (simp add: extract_code_block_def)
  have d: "extract_code_block doc = x" if "first_block python_fence doc x"
    using that some(1)[of doc x] by (simp add: extract_code_block_def)
  have e: "extract_code_block doc = x"
    if "\<not> contains_block python_fence doc" "first_block plain_fence doc x"
    using that some(2)[of doc x] none(1)[of doc] by (simp add: extract_code_block_def)
  from a b c d e show ?thesis by blast
qed

lemma python_reply_block: "first_block python_fence python_reply ''print(1)''"
  unfolding first_block_def
  by (intro exI[of _ "''Here is the code:\<newline>''"] exI[of _ "''\<newline>Done.''"])
     (simp add: python_reply_def python_fence_def closing_fence_def sublist_Cons_right)

lemma plain_reply_block: "first_block plain_fence plain_reply ''x = 5''"
  unfolding first_block_def
  by (intro exI[of _ "[]"])
     (simp add: plain_reply_def plain_fence_def closing_fence_def sublist_Cons_right)

lemma plain_reply_no_python: "\<not> contains_block python_fence plain_reply"
proof -
  have "first_group python_fence closing_fence plain_reply = None"
    by (simp add: first_group_def plain_reply_def python_fence_def)
  then show ?thesis
    using first_group_None[of python_fence plain_reply] by (simp add: python_fence_def)
qed

lemma bare_code_no_block:
  "\<not> contains_block python_fence ''print(1)'' \<and> \<not> contains_block plain_fence ''print(1)''"
proof -
  have "first_group python_fence closing_fence ''print(1)'' = None"
       "first_group plain_fence closing_fence ''print(1)'' = None"
    by (simp_all add: first_group_def python_fence_def plain_fence_def)
  then show ?thesis
    using first_group_None[of python_fence "''print(1)''"] first_group_None[of plain_fence "''print(1)''"]
    by (simp add: python_fence_def plain_fence_def)
qed

theorem extract_code_block_policy_witness:
  "first_block python_fence python_reply ''print(1)'' \<and>
   extract_code_block python_reply = ''print(1)'' \<and>
   \<not> contains_block python_fence plain_reply \<and> first_block plain_fence plain_reply ''x = 5'' \<and>
   extract_code_block plain_reply = ''x = 5'' \<and>
   \<not> contains_block python_fence ''print(1)'' \<and> \<not> contains_block plain_fence ''print(1)'' \<and>
   extract_code_block ''print(1)'' = ''print(1)''"
  using extract_code_block_policy [of python_reply "''print(1)''"] python_reply_block
    extract_code_block_policy [of plain_reply "''x = 5''"] plain_reply_block plain_reply_no_python
    extract_code_block_policy [of "''print(1)''"] bare_code_no_block
  by simp

text \<open>
  C8 as stated fails for a fenced block with another tag: the text is one block tagged
  \<^verbatim>\<open>py\<close> with the contents \<^verbatim>\<open>x = 1\<close>, and the extractor returns the whole text, fence
  lines included.
\<close>

theorem extract_other_tag_counterexample:
  "fenced_block ''py'' ''x = 1'' other_tag_reply \<and>
   extract_code_block other_tag_reply = other_tag_reply \<and>
   extract_code_block other_tag_reply \<noteq> ''x = 1''"
proof -
  have "fenced_block ''py'' ''x = 1'' other_tag_reply"
    unfolding fenced_block_def
    by (intro conjI exI[of _ "[]"]) (simp_all add: other_tag_reply_def closing_fence_def)
  moreover have "extract_code_block other_tag_reply = other_tag_reply"
    by (simp add: extract_code_block_def first_group_def other_tag_reply_def python_fence_def
        plain_fence_def closing_fence_def)
  ultimately show ?thesis
    by (simp add: other_tag_reply_def)
qed

section \<open>The evaluation parser\<close>











text \<open>
  The handler names \<^verbatim>\<open>json.JSONDecodeError\<close> only: any other exception of the decoder
  would leave the parser.
\<close>

lemma parse_json_evaluation_propagates:
  "search_braces doc = Some sp \<Longrightarrow> loads sp = Inl (OtherException msg) \<Longrightarrow>
   parse_json_evaluation loads doc = Inl (OtherException msg)"
  by (simp add: parse_json_evaluation_def)

end
